theory Spec2Isabelle
  imports Complex_Main
begin

section \<open>Python values, exceptions and string operations\<close>

text \<open>
  The program is one Python script, \<^verbatim>\<open>main.py\<close>.  It has no \<^verbatim>\<open>try\<close> block, so an
  exception raised in the main thread ends the decision loop.  Every operation that can
  raise returns \<open>error + 'a\<close>, with \<open>Inl\<close> for the exception.
\<close>

datatype error = ValueError | IndexError | TypeError | KeyError

definition bind :: "error + 'a \<Rightarrow> ('a \<Rightarrow> error + 'b) \<Rightarrow> error + 'b" where
  "bind m f = (case m of Inl e \<Rightarrow> Inl e | Inr x \<Rightarrow> f x)"

text \<open>\<^verbatim>\<open>xs[i]\<close> for a non-negative index: IndexError out of range.\<close>

definition item :: "'a list \<Rightarrow> nat \<Rightarrow> error + 'a" where
  "item xs i = (if i < length xs then Inr (xs ! i) else Inl IndexError)"

text \<open>\<^verbatim>\<open>s.split(',')\<close>: the pieces between commas; always at least one piece.\<close>

fun split_comma :: "string \<Rightarrow> string list" where
  "split_comma [] = [[]]"
| "split_comma (c # cs) =
     (if c = CHR '','' then [] # split_comma cs
      else (case split_comma cs of [] \<Rightarrow> [[c]] | p # ps \<Rightarrow> (c # p) # ps))"

text \<open>\<^verbatim>\<open>s.strip(chars)\<close>: drops leading and trailing characters that are in \<open>chars\<close>.\<close>

definition strip :: "string \<Rightarrow> string \<Rightarrow> string" where
  "strip chars s =
     rev (dropWhile (\<lambda>c. c \<in> set chars) (rev (dropWhile (\<lambda>c. c \<in> set chars) s)))"

text \<open>
  \<^verbatim>\<open>int(s)\<close> for a string, base 10: surrounding whitespace is dropped, then an optional
  sign, then decimal digits, where single underscores may stand between digits.
  Anything else raises ValueError.  Characters are ASCII here, and the interpreter's
  limit on the number of digits is left out.
\<close>

definition py_whitespace :: "string" where
  "py_whitespace =
     [CHR 0x09, CHR 0x0A, CHR 0x0B, CHR 0x0C, CHR 0x0D,
      CHR 0x1C, CHR 0x1D, CHR 0x1E, CHR 0x1F, CHR 0x20]"

definition is_digit :: "char \<Rightarrow> bool" where
  "is_digit c = (48 \<le> (of_char c :: nat) \<and> (of_char c :: nat) \<le> 57)"

definition digit_val :: "char \<Rightarrow> nat" where
  "digit_val c = of_char c - 48"

fun parse_digits :: "nat \<Rightarrow> string \<Rightarrow> nat option" where
  "parse_digits acc [] = Some acc"
| "parse_digits acc [c] = (if is_digit c then Some (10 * acc + digit_val c) else None)"
| "parse_digits acc (c # d # ds) =
     (if is_digit c then parse_digits (10 * acc + digit_val c) (d # ds)
      else if c = CHR ''_'' \<and> is_digit d then parse_digits (10 * acc + digit_val d) ds
      else None)"

definition py_int :: "string \<Rightarrow> error + int" where
  "py_int s =
     (let t = strip py_whitespace s;
          neg = (t \<noteq> [] \<and> hd t = CHR ''-'');
          body = (if t \<noteq> [] \<and> (hd t = CHR ''-'' \<or> hd t = CHR ''+'') then tl t else t)
      in case body of
           [] \<Rightarrow> Inl ValueError
         | d # ds \<Rightarrow>
             if is_digit d then
               (case parse_digits (digit_val d) ds of
                  None \<Rightarrow> Inl ValueError
                | Some n \<Rightarrow> Inr (if neg then - int n else int n))
             else Inl ValueError)"

section \<open>Telemetry aggregation (the drain of the queue, lines 211-242)\<close>

text \<open>
  The reader thread puts decoded lines (\<^verbatim>\<open>str\<close>) into the queue while nvidia-smi runs, and
  the undecoded rest (\<^verbatim>\<open>bytes\<close>, line 133) after nvidia-smi has ended by itself.
\<close>

datatype queue_item = Str string | Bytes string

text \<open>The four \<^verbatim>\<open>highest_*\<close> variables, and likewise the four \<^verbatim>\<open>previous_*\<close> ones.\<close>

record aggregate =
  g_util :: int
  g_temp :: int
  g_idx :: int
  g_name :: string

definition zero_aggregate :: aggregate where
  "zero_aggregate = \<lparr>g_util = 0, g_temp = 0, g_idx = 0, g_name = []\<rparr>"

text \<open>
  One pass of the inner \<^verbatim>\<open>while\<close> body (lines 224-242) on the pair
  (\<^verbatim>\<open>highest_*\<close>, \<^verbatim>\<open>previous_*\<close>).  \<^verbatim>\<open>bytes.split(',')\<close> raises TypeError.  An ignored
  record leaves by \<^verbatim>\<open>continue\<close>, before the \<^verbatim>\<open>previous_*\<close> assignments.
\<close>

definition clean_data :: "string \<Rightarrow> string list" where
  "clean_data line = map (strip [CHR 0x20, CHR 0x0A]) (split_comma line)"

definition process_line ::
  "string list \<Rightarrow> aggregate \<times> aggregate \<Rightarrow> queue_item \<Rightarrow> error + (aggregate \<times> aggregate)" where
  "process_line ignored_gpus hp raw =
     (case raw of
        Bytes _ \<Rightarrow> Inl TypeError
      | Str line \<Rightarrow>
          bind (item (clean_data line) 0) (\<lambda>f0.
          if f0 \<in> set ignored_gpus then Inr hp
          else
            bind (item (clean_data line) 2) (\<lambda>f2.
            bind (py_int f2) (\<lambda>t.
            if t > g_temp (fst hp) then
              bind (py_int f0) (\<lambda>i.
              bind (item (clean_data line) 1) (\<lambda>n.
              bind (item (clean_data line) 3) (\<lambda>f3.
              bind (py_int f3) (\<lambda>u.
                Inr (\<lparr>g_util = u, g_temp = t, g_idx = i, g_name = n\<rparr>,
                     \<lparr>g_util = u, g_temp = t, g_idx = i, g_name = n\<rparr>)))))
            else Inr (fst hp, fst hp)))))"

fun drain_loop ::
  "string list \<Rightarrow> aggregate \<times> aggregate \<Rightarrow> queue_item list \<Rightarrow> error + (aggregate \<times> aggregate)" where
  "drain_loop ignored_gpus hp [] = Inr hp"
| "drain_loop ignored_gpus hp (raw # rest) =
     bind (process_line ignored_gpus hp raw) (\<lambda>hp'. drain_loop ignored_gpus hp' rest)"

text \<open>
  What the claims say about records, as tests on a queue item: \<open>is_ignored\<close> is the test
  of line 230, \<^verbatim>\<open>clean_data[0] in ignored_gpus\<close>; a record is \<open>cold\<close> when its temperature
  field is an integer that is at most 0; it is \<open>malformed\<close> when it has fewer than three
  fields or its temperature field is not an integer.
\<close>

definition is_ignored :: "string list \<Rightarrow> queue_item \<Rightarrow> bool" where
  "is_ignored ignored_gpus raw =
     (case raw of Bytes _ \<Rightarrow> False | Str line \<Rightarrow> hd (clean_data line) \<in> set ignored_gpus)"

definition temperature_of :: "queue_item \<Rightarrow> error + int" where
  "temperature_of raw =
     (case raw of
        Bytes _ \<Rightarrow> Inl TypeError
      | Str line \<Rightarrow> bind (item (clean_data line) 2) py_int)"

definition cold :: "queue_item \<Rightarrow> bool" where
  "cold raw = (case temperature_of raw of Inl e \<Rightarrow> False | Inr t \<Rightarrow> t \<le> 0)"

definition malformed :: "queue_item \<Rightarrow> bool" where
  "malformed raw = (case temperature_of raw of Inl e \<Rightarrow> True | Inr t \<Rightarrow> False)"

text \<open>
  Lines 212-242: the tick's aggregate and the new \<^verbatim>\<open>previous_*\<close> values, from the
  old \<^verbatim>\<open>previous_*\<close> values and the lines found in the queue during this tick.
\<close>

definition drain ::
  "string list \<Rightarrow> aggregate \<Rightarrow> queue_item list \<Rightarrow> error + (aggregate \<times> aggregate)" where
  "drain ignored_gpus previous batch =
     (if batch = [] then Inr (previous, previous)
      else drain_loop ignored_gpus (zero_aggregate, previous) batch)"

section \<open>The fan curve (lines 191-203) and its lookup (lines 155-164)\<close>

text \<open>
  An element of a numpy array of floats.  Rounding is not modelled: a finite value is a
  real number.  \<open>NaN\<close> is numpy's not-a-number, which \<^verbatim>\<open>log10\<close> of a negative number gives.
\<close>

datatype npfloat = Fin real | NaN

text \<open>
  Modelled from the spec: \<^verbatim>\<open>numpy.geomspace\<close>, a library function that is not under
  \<^verbatim>\<open>src/\<close>.  The spec: ``temperature values are geometrically spaced between
  activate_threshold and max_temp_threshold, and speed values are geometrically spaced
  between min_fan_speed_target and 100, paired index-for-index''.  So element \<open>i\<close> of
  \<open>num\<close> is \<open>start * (stop / start) powr (i / (num - 1))\<close>.  As numpy documents it, the
  first and last elements are \<open>start\<close> and \<open>stop\<close> themselves, a zero endpoint raises
  ValueError, two negative endpoints give the negated progression of their absolute
  values (the same formula), and endpoints of different signs give NaN in between.
\<close>

definition geomspace :: "real \<Rightarrow> real \<Rightarrow> nat \<Rightarrow> error + npfloat list" where
  "geomspace start stop num =
     (if start = 0 \<or> stop = 0 then Inl ValueError
      else Inr (map (\<lambda>i. if i = 0 then Fin start
                         else if i = num - 1 then Fin stop
                         else if (start < 0) = (stop < 0)
                         then Fin (start * (stop / start) powr (real i / real (num - 1)))
                         else NaN) [0..<num]))"

text \<open>
  A Python dict keeps its keys in insertion order; assigning to a key that is present
  replaces the value in place.  A NaN key is never equal to another key.
\<close>

type_synonym levels = "(npfloat \<times> npfloat) list"

fun dict_set :: "levels \<Rightarrow> npfloat \<Rightarrow> npfloat \<Rightarrow> levels" where
  "dict_set [] k v = [(k, v)]"
| "dict_set ((k', v') # d) k v =
     (if k' = k \<and> k \<noteq> NaN then (k', v) # d else (k', v') # dict_set d k v)"

text \<open>Lines 199-203: \<^verbatim>\<open>while i < 512: levels_dict[temp_levels[i]] = fan_levels[i]\<close>.\<close>

function build_levels :: "npfloat list \<Rightarrow> npfloat list \<Rightarrow> nat \<Rightarrow> levels \<Rightarrow> error + levels" where
  "build_levels temp_levels fan_levels i d =
     (if i < 512 then
        (if i < length fan_levels \<and> i < length temp_levels
         then build_levels temp_levels fan_levels (Suc i)
                (dict_set d (temp_levels ! i) (fan_levels ! i))
         else Inl IndexError)
      else Inr d)"
  by pat_completeness auto
termination
  by (relation "measure (\<lambda>(temp_levels, fan_levels, i, d). 512 - i)") auto

declare build_levels.simps [simp del]

text \<open>\<^verbatim>\<open>int(x)\<close> for a float: truncation towards zero; ValueError for NaN.\<close>

definition trunc :: "real \<Rightarrow> int" where
  "trunc x = (if 0 \<le> x then \<lfloor>x\<rfloor> else \<lceil>x\<rceil>)"

fun py_int_float :: "npfloat \<Rightarrow> error + int" where
  "py_int_float NaN = Inl ValueError"
| "py_int_float (Fin x) = Inr (trunc x)"

text \<open>
  Line 156: \<^verbatim>\<open>next(filter(lambda k: temperature <= int(k), levels), None)\<close>, the first
  key in insertion order that passes the test.
\<close>

fun first_key :: "levels \<Rightarrow> int \<Rightarrow> error + npfloat option" where
  "first_key [] temperature = Inr None"
| "first_key ((k, v) # d) temperature =
     bind (py_int_float k) (\<lambda>n.
       if temperature \<le> n then Inr (Some k) else first_key d temperature)"

text \<open>Lines 156-161: the speed chosen for a temperature.\<close>

definition lookup_speed :: "levels \<Rightarrow> int \<Rightarrow> error + npfloat" where
  "lookup_speed levels temperature =
     bind (first_key levels temperature) (\<lambda>temp.
       case temp of
         None \<Rightarrow> (if levels = [] then Inl IndexError else Inr (snd (last levels)))
       | Some k \<Rightarrow> (case map_of levels k of None \<Rightarrow> Inl KeyError | Some speed \<Rightarrow> Inr speed))"

text \<open>The calls made to ipmitool: manual control on or off, and a static speed byte.\<close>

datatype sink_call = ToggleFanControl bool | SetStaticFanSpeed int

text \<open>
  Lines 155-164 up to the subprocess call: the command issued carries \<^verbatim>\<open>int(speed)\<close>.
  Whether ipmitool succeeds is an input of the tick.
\<close>

definition ipmi_set_static_fan_speed :: "levels \<Rightarrow> int \<Rightarrow> error + sink_call" where
  "ipmi_set_static_fan_speed levels temperature =
     bind (lookup_speed levels temperature) (\<lambda>speed.
     bind (py_int_float speed) (\<lambda>b. Inr (SetStaticFanSpeed b)))"

section \<open>Configuration (lines 11-19 and 172-184)\<close>

record runtime_params =
  gpu_max_temp_threshold :: int
  gpu_min_fan_speed_target :: int
  gpu_idle_temp_target :: int
  gpu_auto_handoff_interval :: int
  gpu_idle_condition_threshold :: int
  gpu_activate_fan_control_threshold :: int
  ignore_gpus :: "string option"

text \<open>Lines 11-19: the defaults.\<close>

definition default_params :: runtime_params where
  "default_params =
     \<lparr>gpu_max_temp_threshold = 80, gpu_min_fan_speed_target = 50,
      gpu_idle_temp_target = 45, gpu_auto_handoff_interval = 10,
      gpu_idle_condition_threshold = 0, gpu_activate_fan_control_threshold = - 1,
      ignore_gpus = None\<rparr>"

text \<open>Lines 177-178: the value -1 stands for ``ten degrees above the idle target''.\<close>

definition activate_default :: "runtime_params \<Rightarrow> runtime_params" where
  "activate_default p =
     (if gpu_activate_fan_control_threshold p = - 1
      then p\<lparr>gpu_activate_fan_control_threshold := gpu_idle_temp_target p + 10\<rparr>
      else p)"

text \<open>Lines 180-184.\<close>

definition ignored_gpus_of :: "runtime_params \<Rightarrow> string list" where
  "ignored_gpus_of p =
     (case ignore_gpus p of
        None \<Rightarrow> []
      | Some s \<Rightarrow> map (strip [CHR 0x20]) (split_comma s))"

text \<open>Lines 191-203.\<close>

definition levels_dict :: "runtime_params \<Rightarrow> error + levels" where
  "levels_dict p =
     bind (geomspace (of_int (gpu_activate_fan_control_threshold p))
             (of_int (gpu_max_temp_threshold p)) 512) (\<lambda>temp_levels.
     bind (geomspace (of_int (gpu_min_fan_speed_target p)) 100 512) (\<lambda>fan_levels.
       build_levels temp_levels fan_levels 0 []))"

section \<open>The decision loop (lines 205-273) and the program (lines 167-280)\<close>

text \<open>
  What one pass of the outer loop takes from its environment: the lines it finds in the
  queue, the value of \<^verbatim>\<open>datetime.now()\<close> in microseconds (a pass reads the clock in at
  most one branch), and whether ipmitool succeeds when the pass toggles manual control
  and when it sets the speed.
\<close>

record tick_input =
  batch :: "queue_item list"
  now :: int
  toggle_ok :: bool
  speed_ok :: bool

text \<open>
  The variables of the main thread that live across passes, the stop event
  \<^verbatim>\<open>stop_nvidia_smi\<close>, and the ipmitool calls made so far.
\<close>

record engine_state =
  previous :: aggregate
  manual_activated_dt :: "int option"
  manual_met_idle_temp_dt :: "int option"
  stop_nvidia_smi :: bool
  sink_calls :: "sink_call list"

definition initial_state :: engine_state where
  "initial_state =
     \<lparr>previous = zero_aggregate, manual_activated_dt = None,
      manual_met_idle_temp_dt = None, stop_nvidia_smi = False, sink_calls = []\<rparr>"

text \<open>
  Lines 257-259: \<^verbatim>\<open>(datetime.now() - manual_met_idle_temp_dt).total_seconds() >=
  gpu_auto_handoff_interval and highest_util <= gpu_idle_condition_threshold\<close>, with both
  times in microseconds (the resolution of \<^verbatim>\<open>datetime\<close>) and the interval in seconds.
  \<^verbatim>\<open>total_seconds()\<close> divides the microseconds by a million in floating point; the
  comparison with a whole number of seconds is the one written here for every interval
  below a thousand million seconds.
\<close>

definition handoff_due :: "runtime_params \<Rightarrow> tick_input \<Rightarrow> aggregate \<Rightarrow> int \<Rightarrow> bool" where
  "handoff_due p inp highest met_idle \<longleftrightarrow>
     now inp - met_idle \<ge> gpu_auto_handoff_interval p * 1000000 \<and>
     g_util highest \<le> gpu_idle_condition_threshold p"

text \<open>Lines 244-266: the \<^verbatim>\<open>if\<close> / \<^verbatim>\<open>elif\<close> / \<^verbatim>\<open>elif\<close> chain.\<close>

definition transition ::
  "runtime_params \<Rightarrow> tick_input \<Rightarrow> aggregate \<Rightarrow> engine_state \<Rightarrow> engine_state" where
  "transition p inp highest s =
     (if manual_activated_dt s = None \<and>
         g_temp highest \<ge> gpu_activate_fan_control_threshold p then
        s\<lparr>manual_activated_dt := Some (now inp),
          manual_met_idle_temp_dt := None,
          sink_calls := sink_calls s @ [ToggleFanControl True],
          stop_nvidia_smi := (stop_nvidia_smi s \<or> \<not> toggle_ok inp)\<rparr>
      else if manual_activated_dt s \<noteq> None \<and> manual_met_idle_temp_dt s = None \<and>
              g_temp highest \<le> gpu_idle_temp_target p then
        s\<lparr>manual_met_idle_temp_dt := Some (now inp)\<rparr>
      else
        (case manual_met_idle_temp_dt s of
           None \<Rightarrow> s
         | Some met_idle \<Rightarrow>
             if handoff_due p inp highest met_idle then
               s\<lparr>manual_activated_dt := None,
                 manual_met_idle_temp_dt := None,
                 sink_calls := sink_calls s @ [ToggleFanControl False],
                 stop_nvidia_smi := (stop_nvidia_smi s \<or> \<not> toggle_ok inp)\<rparr>
             else s))"

text \<open>Lines 268-271: under manual control the speed is set in every pass.\<close>

definition set_speed ::
  "levels \<Rightarrow> tick_input \<Rightarrow> aggregate \<Rightarrow> engine_state \<Rightarrow> error + engine_state" where
  "set_speed levels inp highest s =
     (if manual_activated_dt s \<noteq> None then
        bind (ipmi_set_static_fan_speed levels (g_temp highest)) (\<lambda>c.
          Inr (s\<lparr>sink_calls := sink_calls s @ [c],
                 stop_nvidia_smi := (stop_nvidia_smi s \<or> \<not> speed_ok inp)\<rparr>))
      else Inr s)"

text \<open>Lines 212-271: one pass of the outer loop.\<close>

definition tick ::
  "runtime_params \<Rightarrow> string list \<Rightarrow> levels \<Rightarrow> engine_state \<Rightarrow> tick_input \<Rightarrow> error + engine_state" where
  "tick p ignored_gpus levels s inp =
     bind (drain ignored_gpus (previous s) (batch inp)) (\<lambda>hp.
       set_speed levels inp (fst hp)
         (transition p inp (fst hp) (s\<lparr>previous := snd hp\<rparr>)))"

text \<open>
  The outer loop runs while \<^verbatim>\<open>complete_shutdown\<close> is false; the reader thread sets that
  flag.  The list holds the inputs of the passes made before the flag is seen.
\<close>

fun run_loop ::
  "runtime_params \<Rightarrow> string list \<Rightarrow> levels \<Rightarrow> engine_state \<Rightarrow> tick_input list \<Rightarrow> error + engine_state" where
  "run_loop p ignored_gpus levels s [] = Inr s"
| "run_loop p ignored_gpus levels s (inp # inps) =
     bind (tick p ignored_gpus levels s inp) (\<lambda>s'. run_loop p ignored_gpus levels s' inps)"

text \<open>
  How the process ends: an exit status together with every ipmitool call it made, or an
  uncaught exception before the loop or inside it (the final call of lines 275-280 is
  then never reached).
\<close>

datatype outcome =
    Exit int "sink_call list"
  | StartupError error
  | LoopError error

text \<open>
  Lines 167-280.  \<open>deps_ok\<close> is the result of \<^verbatim>\<open>check_dependencies\<close>, \<open>p\<close> the parameters
  after the command line has been merged in, \<open>final_ok\<close> whether the last ipmitool call
  succeeds.
\<close>

definition main :: "bool \<Rightarrow> runtime_params \<Rightarrow> tick_input list \<Rightarrow> bool \<Rightarrow> outcome" where
  "main deps_ok p inps final_ok =
     (if \<not> deps_ok then Exit 1 []
      else
        (case levels_dict (activate_default p) of
           Inl e \<Rightarrow> StartupError e
         | Inr levels \<Rightarrow>
             (case run_loop (activate_default p) (ignored_gpus_of p) levels initial_state inps of
                Inl e \<Rightarrow> LoopError e
              | Inr s \<Rightarrow>
                  Exit (if final_ok then 0 else 1)
                    (sink_calls s @ [ToggleFanControl False]))))"

section \<open>Closed forms and the spec's lookup, for the statements below\<close>

text \<open>
  Element \<open>i\<close> of \<open>geomspace start stop 512\<close> for endpoints of one sign, and the table
  of pairs that the loop of lines 199-203 builds from two such arrays when the
  temperatures are pairwise different.
\<close>

definition geom :: "real \<Rightarrow> real \<Rightarrow> nat \<Rightarrow> real" where
  "geom start stop i = start * (stop / start) powr (real i / 511)"

definition table :: "real \<Rightarrow> real \<Rightarrow> real \<Rightarrow> (real \<times> real) list" where
  "table a m f = map (\<lambda>i. (geom a m i, geom f 100 i)) [0..<512]"

text \<open>
  The lookup in the spec's words: the speed is paired with the smallest breakpoint that is
  at least the temperature; if there is no such breakpoint, it is the speed of the last
  breakpoint, which is the highest one.
\<close>

definition smallest_breakpoint_speed :: "levels \<Rightarrow> int \<Rightarrow> npfloat \<Rightarrow> bool" where
  "smallest_breakpoint_speed levels temperature speed \<longleftrightarrow>
     (\<exists>k. (Fin k, speed) \<in> set levels \<and> of_int temperature \<le> k \<and>
          (\<forall>k'. Fin k' \<in> fst ` set levels \<and> of_int temperature \<le> k' \<longrightarrow> k \<le> k'))
     \<or>
     ((\<forall>k'. Fin k' \<in> fst ` set levels \<longrightarrow> k' < of_int temperature) \<and>
      levels \<noteq> [] \<and> speed = snd (last levels) \<and>
      (\<exists>kl. fst (last levels) = Fin kl \<and> (\<forall>k'. Fin k' \<in> fst ` set levels \<longrightarrow> k' \<le> kl)))"

text \<open>
  Two command lines that the program accepts:
  \<^verbatim>\<open>--gpu-max-temp-threshold 70 --gpu-activate-fan-control-threshold 80\<close>, and the same
  with \<^verbatim>\<open>--gpu-min-fan-speed-target 100\<close>.
\<close>

definition inverted_params :: runtime_params where
  "inverted_params =
     default_params\<lparr>gpu_max_temp_threshold := 70, gpu_activate_fan_control_threshold := 80\<rparr>"

definition degenerate_params :: runtime_params where
  "degenerate_params =
     default_params\<lparr>gpu_max_temp_threshold := 70, gpu_activate_fan_control_threshold := 80,
       gpu_min_fan_speed_target := 100\<rparr>"

section \<open>Lemmas: the drain\<close>

lemma split_comma_nonempty: "split_comma s \<noteq> []"
  by (induction s) (auto split: list.splits)

lemma clean_data_nonempty: "clean_data line \<noteq> []"
  by (simp add: clean_data_def split_comma_nonempty)

lemma item_clean_data_0: "item (clean_data line) 0 = Inr (hd (clean_data line))"
  using clean_data_nonempty [of line] by (cases "clean_data line") (simp_all add: item_def)

lemma process_line_ignored:
  "is_ignored ignored_gpus raw \<Longrightarrow> process_line ignored_gpus hp raw = Inr hp"
  by (cases raw) (simp_all add: is_ignored_def process_line_def item_clean_data_0 bind_def)

lemma process_line_cold:
  "\<not> is_ignored ignored_gpus raw \<Longrightarrow> cold raw \<Longrightarrow> g_temp h = 0 \<Longrightarrow>
   process_line ignored_gpus (h, q) raw = Inr (h, h)"
  by (cases raw)
    (auto simp add: is_ignored_def cold_def temperature_of_def process_line_def
      item_clean_data_0 bind_def split: sum.splits)

lemma process_line_malformed:
  "\<not> is_ignored ignored_gpus raw \<Longrightarrow> malformed raw \<Longrightarrow>
   \<exists>e. process_line ignored_gpus hp raw = Inl e"
  by (cases raw)
    (auto simp add: is_ignored_def malformed_def temperature_of_def process_line_def
      item_clean_data_0 bind_def split: sum.splits)

lemma drain_loop_cold:
  "\<forall>raw\<in>set raws. is_ignored ignored_gpus raw \<or> cold raw \<Longrightarrow>
   drain_loop ignored_gpus (zero_aggregate, q) raws =
     Inr (zero_aggregate,
          if (\<forall>raw\<in>set raws. is_ignored ignored_gpus raw) then q else zero_aggregate)"
proof (induction raws arbitrary: q)
  case Nil
  then show ?case by simp
next
  case (Cons raw rest)
  show ?case
  proof (cases "is_ignored ignored_gpus raw")
    case True
    with Cons show ?thesis by (simp add: process_line_ignored bind_def)
  next
    case False
    with Cons.prems have c: "cold raw" by simp
    have "process_line ignored_gpus (zero_aggregate, q) raw = Inr (zero_aggregate, zero_aggregate)"
      using process_line_cold [OF False c, of zero_aggregate q] by (simp add: zero_aggregate_def)
    with Cons False show ?thesis by (simp add: bind_def)
  qed
qed

lemma drain_loop_filter:
  "drain_loop ignored_gpus hp raws =
   drain_loop ignored_gpus hp (filter (\<lambda>raw. \<not> is_ignored ignored_gpus raw) raws)"
  by (induction raws arbitrary: hp) (auto simp add: process_line_ignored bind_def split: sum.splits)

lemma drain_loop_malformed:
  "raw \<in> set raws \<Longrightarrow> \<not> is_ignored ignored_gpus raw \<Longrightarrow> malformed raw \<Longrightarrow>
   \<exists>e. drain_loop ignored_gpus hp raws = Inl e"
proof (induction raws arbitrary: hp)
  case Nil
  then show ?case by simp
next
  case (Cons x rest)
  show ?case
  proof (cases "process_line ignored_gpus hp x")
    case (Inl e)
    then show ?thesis by (simp add: bind_def)
  next
    case (Inr hp')
    with Cons.prems process_line_malformed [of ignored_gpus x hp] have "raw \<in> set rest" by auto
    with Cons Inr show ?thesis by (simp add: bind_def)
  qed
qed

lemma process_line_sync:
  "\<not> is_ignored ignored_gpus raw \<Longrightarrow> process_line ignored_gpus hp raw = Inr hp' \<Longrightarrow> snd hp' = fst hp'"
  by (cases raw)
    (auto simp add: is_ignored_def process_line_def item_clean_data_0 bind_def
      split: sum.splits if_splits)

lemma process_line_sync_keep:
  "snd hp = fst hp \<Longrightarrow> process_line ignored_gpus hp raw = Inr hp' \<Longrightarrow> snd hp' = fst hp'"
  by (cases "is_ignored ignored_gpus raw") (auto simp add: process_line_ignored dest: process_line_sync)

lemma drain_loop_sync_keep:
  "snd hp = fst hp \<Longrightarrow> drain_loop ignored_gpus hp raws = Inr hp' \<Longrightarrow> snd hp' = fst hp'"
proof (induction raws arbitrary: hp)
  case Nil then show ?case by simp
next
  case (Cons x rest)
  then show ?case
    by (cases "process_line ignored_gpus hp x") (auto simp add: bind_def dest: process_line_sync_keep)
qed

lemma drain_loop_sync:
  "\<exists>raw\<in>set raws. \<not> is_ignored ignored_gpus raw \<Longrightarrow>
   drain_loop ignored_gpus hp raws = Inr hp' \<Longrightarrow> snd hp' = fst hp'"
proof (induction raws arbitrary: hp)
  case Nil then show ?case by simp
next
  case (Cons x rest)
  show ?case
  proof (cases "is_ignored ignored_gpus x")
    case True
    with Cons show ?thesis by (auto simp add: process_line_ignored bind_def)
  next
    case False
    from Cons.prems(2) obtain hp1 where p: "process_line ignored_gpus hp x = Inr hp1"
      and r: "drain_loop ignored_gpus hp1 rest = Inr hp'"
      by (cases "process_line ignored_gpus hp x") (auto simp add: bind_def)
    from process_line_sync [OF False p] drain_loop_sync_keep [OF _ r] show ?thesis by simp
  qed
qed

section \<open>Lemmas: the geometric progression and the table\<close>

lemma geom_0: "start \<noteq> 0 \<Longrightarrow> stop \<noteq> 0 \<Longrightarrow> geom start stop 0 = start"
  by (simp add: geom_def)

lemma geom_511: "0 < start \<Longrightarrow> 0 < stop \<Longrightarrow> geom start stop 511 = stop"
  by (simp add: geom_def)

lemma geom_pos: "0 < start \<Longrightarrow> 0 < stop \<Longrightarrow> 0 < geom start stop i"
  by (simp add: geom_def)

lemma geom_less:
  assumes "0 < start" "start < stop" "i < j"
  shows "geom start stop i < geom start stop j"
proof -
  from assms have "1 < stop / start" by simp
  moreover from assms have "real i / 511 < real j / 511" by simp
  ultimately have "(stop / start) powr (real i / 511) < (stop / start) powr (real j / 511)"
    by (rule powr_less_mono [rotated])
  with assms(1) show ?thesis by (simp add: geom_def)
qed

lemma geom_greater:
  assumes "0 < stop" "stop < start" "i < j"
  shows "geom start stop j < geom start stop i"
proof -
  from assms have "0 < stop / start" "stop / start < 1" by simp_all
  then have "ln (stop / start) < 0" by simp
  moreover from assms have "real i / 511 < real j / 511" by simp
  ultimately have "(real j / 511) * ln (stop / start) < (real i / 511) * ln (stop / start)"
    by (rule mult_strict_right_mono_neg [rotated])
  then have "(real j / 511) * ln (stop / start) < (real i / 511) * ln (stop / start)" .
  moreover from assms have "stop \<noteq> 0" "start \<noteq> 0" by simp_all
  ultimately have "(stop / start) powr (real j / 511) < (stop / start) powr (real i / 511)"
    by (simp add: powr_def)
  with assms show ?thesis by (simp add: geom_def)
qed

lemma geom_inj:
  assumes "0 < start" "0 < stop" "start \<noteq> stop"
  shows "inj (geom start stop)"
proof (rule injI)
  fix i j assume e: "geom start stop i = geom start stop j"
  show "i = j"
  proof (rule ccontr)
    assume "i \<noteq> j"
    then consider "i < j" | "j < i" by linarith
    then show False
    proof cases
      case 1
      with assms e geom_less [of start stop i j] geom_greater [of stop start i j] show False
        by (cases "start < stop") auto
    next
      case 2
      with assms e geom_less [of start stop j i] geom_greater [of stop start j i] show False
        by (cases "start < stop") auto
    qed
  qed
qed

lemma geomspace_pos:
  assumes "0 < start" "0 < stop"
  shows "geomspace start stop 512 = Inr (map (\<lambda>i. Fin (geom start stop i)) [0..<512])"
proof -
  have "(if i = 0 then Fin start
         else if i = 512 - 1 then Fin stop
         else if (start < 0) = (stop < 0)
         then Fin (start * (stop / start) powr (real i / real (512 - 1)))
         else NaN) = Fin (geom start stop i)" for i :: nat
    using assms geom_0 [of start stop] geom_511 [of start stop]
    by (auto simp add: geom_def)
  with assms show ?thesis by (simp add: geomspace_def del: upt_rec_numeral)
qed

lemma geomspace_length:
  "geomspace start stop num = Inr xs \<Longrightarrow> length xs = num"
  by (auto simp add: geomspace_def split: if_splits)

lemma geomspace_nonzero:
  "start \<noteq> 0 \<Longrightarrow> stop \<noteq> 0 \<Longrightarrow> \<exists>xs. geomspace start stop num = Inr xs"
  by (simp add: geomspace_def)

lemma geomspace_zero:
  "start = 0 \<or> stop = 0 \<Longrightarrow> geomspace start stop num = Inl ValueError"
  by (simp add: geomspace_def)

lemma dict_set_length: "length (dict_set d k v) \<ge> length d \<and> dict_set d k v \<noteq> []"
  by (induction d k v rule: dict_set.induct) auto

lemma build_levels_total:
  "length temp_levels = 512 \<Longrightarrow> length fan_levels = 512 \<Longrightarrow>
   \<exists>d'. build_levels temp_levels fan_levels i d = Inr d' \<and> (i < 512 \<or> d \<noteq> [] \<longrightarrow> d' \<noteq> [])"
proof (induction temp_levels fan_levels i d rule: build_levels.induct)
  case (1 temp_levels fan_levels i d)
  show ?case
  proof (cases "i < 512")
    case True
    with 1 dict_set_length [of d "temp_levels ! i" "fan_levels ! i"] show ?thesis
      by (subst build_levels.simps) auto
  next
    case False
    then show ?thesis by (subst build_levels.simps) simp
  qed
qed

lemma dict_set_append: "k \<notin> fst ` set d \<Longrightarrow> dict_set d k v = d @ [(k, v)]"
  by (induction d k v rule: dict_set.induct) auto

lemma build_levels_zip:
  assumes "length temp_levels = 512" "length fan_levels = 512" "distinct temp_levels"
  shows "i \<le> 512 \<Longrightarrow>
    build_levels temp_levels fan_levels i (zip (take i temp_levels) (take i fan_levels)) =
      Inr (zip temp_levels fan_levels)"
proof (induction "512 - i" arbitrary: i)
  case 0
  with assms show ?case by (subst build_levels.simps) simp
next
  case (Suc n)
  then have i: "i < 512" by simp
  have "temp_levels ! i \<notin> set (take i temp_levels)"
    using assms(1,3) i by (auto simp add: in_set_conv_nth nth_eq_iff_index_eq)
  then have "temp_levels ! i \<notin> fst ` set (zip (take i temp_levels) (take i fan_levels))"
    by (auto dest: set_zip_leftD)
  then have "dict_set (zip (take i temp_levels) (take i fan_levels)) (temp_levels ! i) (fan_levels ! i) =
      zip (take (Suc i) temp_levels) (take (Suc i) fan_levels)"
    using assms i by (simp add: dict_set_append take_Suc_conv_app_nth)
  moreover from Suc i have "build_levels temp_levels fan_levels (Suc i)
      (zip (take (Suc i) temp_levels) (take (Suc i) fan_levels)) = Inr (zip temp_levels fan_levels)"
    by simp
  ultimately show ?case using assms i by (subst build_levels.simps) simp
qed

lemma table_length: "length (table a m f) = 512"
  by (simp add: table_def del: upt_rec_numeral)

lemma table_nth: "i < 512 \<Longrightarrow> table a m f ! i = (geom a m i, geom f 100 i)"
  by (simp add: table_def del: upt_rec_numeral)

lemma table_keys: "map fst (table a m f) = map (geom a m) [0..<512]"
  by (simp add: table_def comp_def del: upt_rec_numeral)

lemma table_speeds: "map snd (table a m f) = map (geom f 100) [0..<512]"
  by (simp add: table_def comp_def del: upt_rec_numeral)

lemma table_distinct:
  "0 < a \<Longrightarrow> 0 < m \<Longrightarrow> a \<noteq> m \<Longrightarrow> distinct (map fst (table a m f))"
  unfolding table_keys
  by (simp add: distinct_map del: upt_rec_numeral) (meson geom_inj inj_on_subset subset_UNIV)

lemma geom_sorted:
  "0 < a \<Longrightarrow> a < m \<Longrightarrow> sorted_wrt (<) (map (geom a m) [0..<512])"
  by (simp add: sorted_wrt_iff_nth_less geom_less del: upt_rec_numeral)

lemma build_table:
  assumes "0 < a" "0 < m" "a \<noteq> m" "0 < f"
  shows "bind (geomspace a m 512) (\<lambda>temp_levels.
         bind (geomspace f 100 512) (\<lambda>fan_levels.
           build_levels temp_levels fan_levels 0 [])) =
         Inr (map (\<lambda>(k, v). (Fin k, Fin v)) (table a m f))"
proof -
  let ?tl = "map (\<lambda>i. Fin (geom a m i)) [0..<512]"
  let ?fl = "map (\<lambda>i. Fin (geom f 100 i)) [0..<512]"
  have "distinct (map (geom a m) [0..<512])"
    using table_distinct [OF assms(1-3)] by (simp only: table_keys)
  then have "distinct (map Fin (map (geom a m) [0..<512]))"
    by (simp add: distinct_map inj_on_def del: upt_rec_numeral)
  then have d: "distinct ?tl" by (simp add: comp_def del: upt_rec_numeral)
  have "build_levels ?tl ?fl 0 (zip (take 0 ?tl) (take 0 ?fl)) = Inr (zip ?tl ?fl)"
    by (rule build_levels_zip) (use d in \<open>simp_all del: upt_rec_numeral\<close>)
  moreover have "zip ?tl ?fl = map (\<lambda>(k, v). (Fin k, Fin v)) (table a m f)"
    by (simp add: table_def zip_map_map zip_same_conv_map comp_def del: upt_rec_numeral)
  ultimately show ?thesis
    using assms by (simp add: geomspace_pos bind_def del: upt_rec_numeral)
qed

lemma spec_at_breakpoint:
  assumes d: "distinct (map fst kvs)" and m: "(of_int t, v0) \<in> set kvs"
    and sp: "smallest_breakpoint_speed (map (\<lambda>(k, v). (Fin k, Fin v)) kvs) t (Fin v)"
  shows "v = v0"
proof -
  let ?T = "map (\<lambda>(k, v). (Fin k, Fin v)) kvs"
  have keys: "Fin k' \<in> fst ` set ?T \<longleftrightarrow> k' \<in> fst ` set kvs" for k'
    by (force simp add: image_iff split_beta)
  have pairs: "(Fin k', Fin v') \<in> set ?T \<longleftrightarrow> (k', v') \<in> set kvs" for k' v'
    by (force simp add: image_iff split_beta)
  from m have k0: "of_int t \<in> fst ` set kvs" by force
  from sp [unfolded smallest_breakpoint_speed_def keys pairs] k0
  obtain k where k: "(k, v) \<in> set kvs" "of_int t \<le> k" "k \<le> of_int t"
    by (auto simp add: not_less [symmetric])
  then have "(of_int t, v) \<in> set kvs" by simp
  with d m show ?thesis by (meson eq_key_imp_eq_value)
qed

lemma levels_dict_table:
  assumes "0 < gpu_activate_fan_control_threshold p" "0 < gpu_max_temp_threshold p"
    and "gpu_activate_fan_control_threshold p \<noteq> gpu_max_temp_threshold p"
    and "0 < gpu_min_fan_speed_target p"
  shows "levels_dict p =
           Inr (map (\<lambda>(k, v). (Fin k, Fin v))
                  (table (of_int (gpu_activate_fan_control_threshold p))
                     (of_int (gpu_max_temp_threshold p))
                     (of_int (gpu_min_fan_speed_target p))))"
  unfolding levels_dict_def using assms by (intro build_table) simp_all

lemma table_sorted_keys: "0 < a \<Longrightarrow> a < m \<Longrightarrow> sorted_wrt (<) (map fst (table a m f))"
  unfolding table_keys by (rule geom_sorted)

lemma table_sorted_speeds: "0 < f \<Longrightarrow> f < 100 \<Longrightarrow> sorted_wrt (<) (map snd (table a m f))"
  unfolding table_speeds by (rule geom_sorted)

lemma table_nonneg: "0 < a \<Longrightarrow> 0 < m \<Longrightarrow> \<forall>k\<in>fst ` set (table a m f). 0 \<le> k"
  by (auto simp add: table_def geom_pos less_imp_le simp del: upt_rec_numeral)

lemma table_nonempty: "table a m f \<noteq> []"
  using table_length [of a m f] by auto

lemma table_first: "0 < a \<Longrightarrow> 0 < m \<Longrightarrow> 0 < f \<Longrightarrow> (a, f) \<in> set (table a m f)"
  using table_nth [of 0 a m f] nth_mem [of 0 "table a m f"]
  by (simp add: table_length geom_0)

lemma table_last: "0 < a \<Longrightarrow> 0 < m \<Longrightarrow> 0 < f \<Longrightarrow> (m, 100) \<in> set (table a m f)"
  using table_nth [of 511 a m f] nth_mem [of 511 "table a m f"]
  by (simp add: table_length geom_511)

lemma levels_dict_nonzero:
  assumes "gpu_activate_fan_control_threshold p \<noteq> 0" "gpu_max_temp_threshold p \<noteq> 0"
    "gpu_min_fan_speed_target p \<noteq> 0"
  shows "\<exists>levels. levels_dict p = Inr levels \<and> levels \<noteq> []"
proof -
  from assms obtain tl fl where
    tl: "geomspace (of_int (gpu_activate_fan_control_threshold p)) (of_int (gpu_max_temp_threshold p)) 512 = Inr tl"
    and fl: "geomspace (of_int (gpu_min_fan_speed_target p)) 100 512 = Inr fl"
    using geomspace_nonzero [of "of_int (gpu_activate_fan_control_threshold p)" "of_int (gpu_max_temp_threshold p)" 512]
      geomspace_nonzero [of "of_int (gpu_min_fan_speed_target p)" 100 512]
    by auto
  from geomspace_length [OF tl] geomspace_length [OF fl] build_levels_total [of tl fl 0 "[]"]
  obtain d where "build_levels tl fl 0 [] = Inr d" "d \<noteq> []" by auto
  with tl fl show ?thesis by (simp add: levels_dict_def bind_def)
qed

lemma levels_dict_zero:
  assumes "gpu_activate_fan_control_threshold p = 0 \<or> gpu_max_temp_threshold p = 0 \<or>
    gpu_min_fan_speed_target p = 0"
  shows "levels_dict p = Inl ValueError"
proof (cases "gpu_activate_fan_control_threshold p = 0 \<or> gpu_max_temp_threshold p = 0")
  case True
  then have "geomspace (of_int (gpu_activate_fan_control_threshold p))
      (of_int (gpu_max_temp_threshold p)) 512 = Inl ValueError"
    by (intro geomspace_zero) simp
  then show ?thesis by (simp add: levels_dict_def bind_def)
next
  case False
  with assms have "gpu_min_fan_speed_target p = 0" by simp
  then have "geomspace (of_int (gpu_min_fan_speed_target p)) 100 512 = Inl ValueError"
    by (intro geomspace_zero) simp
  moreover from False obtain tl where "geomspace (of_int (gpu_activate_fan_control_threshold p))
      (of_int (gpu_max_temp_threshold p)) 512 = Inr tl"
    using geomspace_nonzero [of "of_int (gpu_activate_fan_control_threshold p)"
        "of_int (gpu_max_temp_threshold p)" 512] by auto
  ultimately show ?thesis by (simp add: levels_dict_def bind_def)
qed

section \<open>Lemmas: the lookup on a table with increasing keys\<close>

lemma first_key_None:
  "first_key (map (\<lambda>(k, v). (Fin k, Fin v)) kvs) t = Inr None \<longleftrightarrow>
   (\<forall>k\<in>fst ` set kvs. \<not> t \<le> trunc k)"
  by (induction kvs) (auto simp add: bind_def split: if_splits)

lemma first_key_total:
  "\<exists>r. first_key (map (\<lambda>(k, v). (Fin k, Fin v)) kvs) t = Inr r"
  by (induction kvs) (auto simp add: bind_def)

lemma first_key_Some:
  "first_key (map (\<lambda>(k, v). (Fin k, Fin v)) kvs) t = Inr (Some r) \<Longrightarrow>
   \<exists>i < length kvs. r = Fin (fst (kvs ! i)) \<and>
      t \<le> trunc (fst (kvs ! i)) \<and>
      (\<forall>j < i. \<not> t \<le> trunc (fst (kvs ! j)))"
proof (induction kvs)
  case Nil
  then show ?case by simp
next
  case (Cons kv kvs)
  obtain k v where kv: "kv = (k, v)" by (cases kv)
  show ?case
  proof (cases "t \<le> trunc k")
    case True
    with Cons.prems kv have "r = Fin k" by (simp add: bind_def)
    with True kv show ?thesis by (intro exI [of _ 0]) simp
  next
    case False
    with Cons.prems kv have "first_key (map (\<lambda>(k, v). (Fin k, Fin v)) kvs) t = Inr (Some r)"
      by (simp add: bind_def)
    from Cons.IH [OF this] obtain i where i: "i < length kvs" "r = Fin (fst (kvs ! i))"
      "t \<le> trunc (fst (kvs ! i))"
      "\<forall>j < i. \<not> t \<le> trunc (fst (kvs ! j))"
      by blast
    show ?thesis
    proof (intro exI [of _ "Suc i"] conjI allI impI)
      fix j assume "j < Suc i"
      with i(4) False kv
      show "\<not> t \<le> trunc (fst ((kv # kvs) ! j))"
        by (cases j) auto
    qed (use i in simp_all)
  qed
qed

lemma map_of_Fin:
  "distinct (map fst kvs) \<Longrightarrow> i < length kvs \<Longrightarrow>
   map_of (map (\<lambda>(k, v). (Fin k, Fin v)) kvs) (Fin (fst (kvs ! i))) = Some (Fin (snd (kvs ! i)))"
proof -
  assume d: "distinct (map fst kvs)" and i: "i < length kvs"
  let ?T = "map (\<lambda>(k, v). (Fin k, Fin v)) kvs"
  have "map fst ?T = map Fin (map fst kvs)" by (induction kvs) auto
  with d have "distinct (map fst ?T)" by (simp add: distinct_map inj_on_def)
  moreover from i have "(Fin (fst (kvs ! i)), Fin (snd (kvs ! i))) \<in> set ?T"
    by (force simp add: in_set_conv_nth split_beta)
  ultimately show ?thesis by (rule map_of_is_SomeI)
qed

lemma lookup_sorted:
  assumes s: "sorted_wrt (<) (map fst kvs)" and n: "\<forall>k\<in>fst ` set kvs. 0 \<le> k" and ne: "kvs \<noteq> []"
  shows "\<exists>v. lookup_speed (map (\<lambda>(k, v). (Fin k, Fin v)) kvs) t = Inr (Fin v) \<and>
             Fin v \<in> snd ` set (map (\<lambda>(k, v). (Fin k, Fin v)) kvs) \<and>
             smallest_breakpoint_speed (map (\<lambda>(k, v). (Fin k, Fin v)) kvs) t (Fin v)"
proof -
  let ?T = "map (\<lambda>(k, v). (Fin k, Fin v)) kvs"
  have keys: "Fin k' \<in> fst ` set ?T \<longleftrightarrow> k' \<in> fst ` set kvs" for k'
    by (force simp add: image_iff split_beta)
  have tr: "t \<le> trunc k \<longleftrightarrow> of_int t \<le> k" if "k \<in> fst ` set kvs" for k
    using n that by (auto simp add: trunc_def le_floor_iff)
  from s have d: "distinct (map fst kvs)" by (simp add: strict_sorted_iff sorted_wrt_iff_nth_less distinct_conv_nth) (metis less_irrefl linorder_neqE_nat)
  from first_key_total [of kvs t] obtain r where r: "first_key ?T t = Inr r" by blast
  show ?thesis
  proof (cases r)
    case None
    with r first_key_None [of kvs t] tr have all: "\<forall>k\<in>fst ` set kvs. k < of_int t"
      by (auto simp add: not_le)
    have l: "last ?T = (Fin (fst (last kvs)), Fin (snd (last kvs)))"
      using ne by (simp add: last_map split_beta)
    have mx: "k' \<le> fst (last kvs)" if "k' \<in> fst ` set kvs" for k'
    proof -
      from that obtain i where i: "i < length kvs" "k' = fst (kvs ! i)"
        by (auto simp add: in_set_conv_nth)
      show ?thesis
      proof (cases "i = length kvs - 1")
        case True with i ne show ?thesis by (simp add: last_conv_nth)
      next
        case False
        with i have "i < length kvs - 1" by simp
        with s i ne have "fst (kvs ! i) < fst (kvs ! (length kvs - 1))"
          by (simp add: sorted_wrt_iff_nth_less)
        with i ne show ?thesis by (simp add: last_conv_nth)
      qed
    qed
    from ne have "last ?T \<in> set ?T" by (intro last_in_set) simp
    then have m: "Fin (snd (last kvs)) \<in> snd ` set ?T" unfolding l by (metis image_eqI snd_conv)
    from r None ne l have "lookup_speed ?T t = Inr (Fin (snd (last kvs)))"
      by (simp add: lookup_speed_def bind_def)
    moreover have "smallest_breakpoint_speed ?T t (Fin (snd (last kvs)))"
      unfolding smallest_breakpoint_speed_def keys
      using all mx ne l by (intro disjI2) auto
    ultimately show ?thesis using m by blast
  next
    case (Some k)
    with r first_key_Some [of kvs t k] obtain i where i: "i < length kvs" "k = Fin (fst (kvs ! i))"
      "t \<le> trunc (fst (kvs ! i))"
      "\<forall>j < i. \<not> t \<le> trunc (fst (kvs ! j))"
      by blast
    from i(1) have ki: "fst (kvs ! i) \<in> fst ` set kvs" by auto
    from map_of_Fin [OF d i(1)] r Some i(2)
    have lk: "lookup_speed ?T t = Inr (Fin (snd (kvs ! i)))"
      by (simp add: lookup_speed_def bind_def)
    from i(1) have mem: "(Fin (fst (kvs ! i)), Fin (snd (kvs ! i))) \<in> set ?T"
      by (force simp add: in_set_conv_nth split_beta)
    then have m: "Fin (snd (kvs ! i)) \<in> snd ` set ?T" by (metis image_eqI snd_conv)
    have least: "fst (kvs ! i) \<le> k'" if "k' \<in> fst ` set kvs" "of_int t \<le> k'" for k'
    proof -
      from that obtain j where j: "j < length kvs" "k' = fst (kvs ! j)"
        by (auto simp add: in_set_conv_nth)
      with that tr [of k'] have "t \<le> trunc (fst (kvs ! j))"
        by simp
      with i(4) have "\<not> j < i" by blast
      then consider "j = i" | "i < j" by linarith
      then show ?thesis
      proof cases
        case 1 with j show ?thesis by simp
      next
        case 2
        with s j have "fst (kvs ! i) < fst (kvs ! j)" by (simp add: sorted_wrt_iff_nth_less)
        with j show ?thesis by simp
      qed
    qed
    have "smallest_breakpoint_speed ?T t (Fin (snd (kvs ! i)))"
      unfolding smallest_breakpoint_speed_def keys
      using mem i(3) tr [OF ki] least by (intro disjI1 exI [of _ "fst (kvs ! i)"]) blast
    with lk m show ?thesis by blast
  qed
qed

section \<open>Lemmas: a malformed record in the loop\<close>

lemma tick_malformed:
  assumes "raw \<in> set (batch inp)" "\<not> is_ignored ignored_gpus raw" "malformed raw"
  shows "\<exists>e. tick p ignored_gpus levels s inp = Inl e"
proof -
  from assms(1) have "batch inp \<noteq> []" by auto
  with drain_loop_malformed [OF assms] obtain e where
    "drain ignored_gpus (previous s) (batch inp) = Inl e"
    by (auto simp add: drain_def)
  then show ?thesis by (simp add: tick_def bind_def)
qed

lemma run_loop_malformed:
  assumes "inp \<in> set inps" "raw \<in> set (batch inp)"
    "\<not> is_ignored ignored_gpus raw" "malformed raw"
  shows "\<exists>e. run_loop p ignored_gpus levels s inps = Inl e"
  using assms(1)
proof (induction inps arbitrary: s)
  case Nil
  then show ?case by simp
next
  case (Cons x rest)
  show ?case
  proof (cases "tick p ignored_gpus levels s x")
    case (Inl e)
    then show ?thesis by (simp add: bind_def)
  next
    case (Inr s')
    with tick_malformed [OF assms(2-4), of p levels s] have "x \<noteq> inp" by auto
    with Cons Inr show ?thesis by (simp add: bind_def)
  qed
qed

section \<open>Lemmas: the highest speed of a table, and an invariant of the loop\<close>

lemma highest_speed_exists:
  assumes "Fin s \<in> snd ` set levels"
  shows "\<exists>highest. Fin highest \<in> snd ` set levels \<and>
           (\<forall>s'. Fin s' \<in> snd ` set levels \<longrightarrow> s' \<le> highest)"
proof -
  let ?S = "{x. Fin x \<in> snd ` set levels}"
  have "?S \<subseteq> (\<lambda>v. case v of Fin x \<Rightarrow> x | NaN \<Rightarrow> 0) ` (snd ` set levels)"
    by force
  then have fin: "finite ?S" by (rule finite_subset) simp
  from assms have ne: "?S \<noteq> {}" by auto
  from Max_in [OF fin ne] have "Fin (Max ?S) \<in> snd ` set levels" by simp
  moreover have "\<forall>s'. Fin s' \<in> snd ` set levels \<longrightarrow> s' \<le> Max ?S"
    using fin by (auto intro: Max_ge)
  ultimately show ?thesis by blast
qed

lemma tick_idle_implies_manual:
  assumes "tick p ignored_gpus levels s inp = Inr s'"
    and "manual_met_idle_temp_dt s \<noteq> None \<longrightarrow> manual_activated_dt s \<noteq> None"
  shows "manual_met_idle_temp_dt s' \<noteq> None \<longrightarrow> manual_activated_dt s' \<noteq> None"
  using assms
  by (auto simp add: tick_def bind_def transition_def set_speed_def
      split: if_splits sum.splits option.splits)

lemma run_loop_idle_implies_manual:
  assumes "run_loop p ignored_gpus levels s inps = Inr s'"
    and "manual_met_idle_temp_dt s \<noteq> None \<longrightarrow> manual_activated_dt s \<noteq> None"
  shows "manual_met_idle_temp_dt s' \<noteq> None \<longrightarrow> manual_activated_dt s' \<noteq> None"
  using assms
proof (induction inps arbitrary: s)
  case Nil
  then show ?case by simp
next
  case (Cons x rest)
  from Cons.prems(1) obtain s1 where t: "tick p ignored_gpus levels s x = Inr s1"
    and r: "run_loop p ignored_gpus levels s1 rest = Inr s'"
    by (cases "tick p ignored_gpus levels s x") (auto simp add: bind_def)
  from Cons.IH [OF r tick_idle_implies_manual [OF t Cons.prems(2)]] show ?case .
qed

section \<open>The fan curve and its lookup: claims\<close>

text \<open>
  Claim C1 (as amended).  For a configuration with
  \<open>0 < activate_threshold < max_temp_threshold\<close> and \<open>0 < min_fan_speed_target\<close> the table
  is built, and for every integer temperature the lookup raises nothing and returns the
  speed paired with the smallest breakpoint that is at least the temperature, or, when
  there is none, the speed of the last breakpoint, which is the highest; the speed does
  not exceed the highest speed of the table, and the command issued carries its integer
  part.
\<close>

theorem lookup_smallest_breakpoint_valid_config:
  assumes "0 < gpu_activate_fan_control_threshold p"
    and "gpu_activate_fan_control_threshold p < gpu_max_temp_threshold p"
    and "0 < gpu_min_fan_speed_target p"
  shows "\<exists>levels. levels_dict p = Inr levels \<and>
           (\<forall>temperature. \<exists>speed.
              lookup_speed levels temperature = Inr (Fin speed) \<and>
              smallest_breakpoint_speed levels temperature (Fin speed) \<and>
              (\<exists>highest. Fin highest \<in> snd ` set levels \<and>
                 (\<forall>s. Fin s \<in> snd ` set levels \<longrightarrow> s \<le> highest) \<and>
                 speed \<le> highest) \<and>
              ipmi_set_static_fan_speed levels temperature =
                Inr (SetStaticFanSpeed (trunc speed)))"
proof -
  let ?a = "of_int (gpu_activate_fan_control_threshold p) :: real"
  let ?m = "of_int (gpu_max_temp_threshold p) :: real"
  let ?f = "of_int (gpu_min_fan_speed_target p) :: real"
  let ?kvs = "table ?a ?m ?f"
  let ?T = "map (\<lambda>(k, v). (Fin k, Fin v)) ?kvs"
  from assms have pos: "0 < ?a" "?a < ?m" "0 < ?m" "0 < ?f" by simp_all
  have ld: "levels_dict p = Inr ?T" using assms by (intro levels_dict_table) simp_all
  have sk: "sorted_wrt (<) (map fst ?kvs)" using pos by (intro table_sorted_keys)
  have nn: "\<forall>k\<in>fst ` set ?kvs. 0 \<le> k" using pos by (intro table_nonneg)
  have "\<exists>speed. lookup_speed ?T t = Inr (Fin speed) \<and>
          smallest_breakpoint_speed ?T t (Fin speed) \<and>
          (\<exists>highest. Fin highest \<in> snd ` set ?T \<and>
             (\<forall>s. Fin s \<in> snd ` set ?T \<longrightarrow> s \<le> highest) \<and> speed \<le> highest) \<and>
          ipmi_set_static_fan_speed ?T t = Inr (SetStaticFanSpeed (trunc speed))" for t
  proof -
    from lookup_sorted [OF sk nn table_nonempty, of t]
    obtain v where v: "lookup_speed ?T t = Inr (Fin v)" "Fin v \<in> snd ` set ?T"
      "smallest_breakpoint_speed ?T t (Fin v)" by blast
    from v(1) have "ipmi_set_static_fan_speed ?T t = Inr (SetStaticFanSpeed (trunc v))"
      by (simp add: ipmi_set_static_fan_speed_def bind_def)
    moreover from highest_speed_exists [OF v(2)] v(2)
    have "\<exists>highest. Fin highest \<in> snd ` set ?T \<and>
       (\<forall>s. Fin s \<in> snd ` set ?T \<longrightarrow> s \<le> highest) \<and> v \<le> highest" by blast
    ultimately show ?thesis using v(1,3) by blast
  qed
  with ld show ?thesis by blast
qed

theorem lookup_smallest_breakpoint_valid_config_witness:
  "0 < gpu_activate_fan_control_threshold (activate_default default_params) \<and>
   gpu_activate_fan_control_threshold (activate_default default_params)
     < gpu_max_temp_threshold (activate_default default_params) \<and>
   0 < gpu_min_fan_speed_target (activate_default default_params) \<and>
   (\<exists>levels. levels_dict (activate_default default_params) = Inr levels \<and>
      (\<forall>temperature. \<exists>speed.
         lookup_speed levels temperature = Inr (Fin speed) \<and>
         smallest_breakpoint_speed levels temperature (Fin speed) \<and>
         (\<exists>highest. Fin highest \<in> snd ` set levels \<and>
            (\<forall>s. Fin s \<in> snd ` set levels \<longrightarrow> s \<le> highest) \<and>
            speed \<le> highest) \<and>
         ipmi_set_static_fan_speed levels temperature =
           Inr (SetStaticFanSpeed (trunc speed))))"
  using lookup_smallest_breakpoint_valid_config [of "activate_default default_params"]
  by (simp add: activate_default_def default_params_def)

text \<open>
  Claim C1 as stated fails for the table of an inverted configuration (activation at 80,
  maximum at 70, minimum speed 50): at temperature 70 the lookup takes the first key in
  insertion order, 80, and returns the minimum speed 50, while the smallest breakpoint
  that is at least 70 is 70 itself, paired with 100.
\<close>

theorem lookup_inverted_config_counterexample:
  "\<exists>levels. levels_dict (activate_default inverted_params) = Inr levels \<and>
     lookup_speed levels 70 = Inr (Fin 50) \<and>
     \<not> smallest_breakpoint_speed levels 70 (Fin 50)"
proof -
  let ?kvs = "table 80 70 50"
  let ?T = "map (\<lambda>(k, v). (Fin k, Fin v)) ?kvs"
  have ld: "levels_dict (activate_default inverted_params) = Inr ?T"
    using levels_dict_table [of "activate_default inverted_params"]
    by (simp add: activate_default_def inverted_params_def default_params_def)
  have "[0..<512] = 0 # [Suc 0..<512]" by (rule upt_conv_Cons) simp
  then have hd: "?kvs = (80, 50) # map (\<lambda>i. (geom 80 70 i, geom 50 100 i)) [Suc 0..<512]"
    by (simp add: table_def geom_0 del: upt_rec_numeral)
  have lk: "lookup_speed ?T 70 = Inr (Fin 50)"
    unfolding hd by (simp add: lookup_speed_def bind_def trunc_def del: upt_rec_numeral)
  have d: "distinct (map fst ?kvs)" by (intro table_distinct) simp_all
  have "(of_int 70, 100) \<in> set ?kvs" using table_last [of 80 70 50] by simp
  from spec_at_breakpoint [OF d this, of 50]
  have "\<not> smallest_breakpoint_speed ?T 70 (Fin 50)" by auto
  with ld lk show ?thesis by blast
qed

text \<open>
  Claim C2 (as amended).  Curve construction checks no range.  It raises ValueError, before
  the loop, exactly when the activation threshold, the maximum temperature or the minimum
  speed is 0; for every other configuration, also one with
  \<open>activate_threshold \<ge> max_temp_threshold\<close> or \<open>min_fan_speed_target \<ge> 100\<close>, a non-empty
  table is produced.
\<close>

theorem curve_construction_unchecked:
  "(if gpu_activate_fan_control_threshold (activate_default p) = 0 \<or>
       gpu_max_temp_threshold (activate_default p) = 0 \<or>
       gpu_min_fan_speed_target (activate_default p) = 0
    then levels_dict (activate_default p) = Inl ValueError \<and>
         main True p inps final_ok = StartupError ValueError
    else \<exists>levels. levels_dict (activate_default p) = Inr levels \<and> levels \<noteq> [])"
proof (cases "gpu_activate_fan_control_threshold (activate_default p) = 0 \<or>
       gpu_max_temp_threshold (activate_default p) = 0 \<or>
       gpu_min_fan_speed_target (activate_default p) = 0")
  case True
  from levels_dict_zero [OF True] True show ?thesis by (simp add: main_def)
next
  case False
  with levels_dict_nonzero [of "activate_default p"] show ?thesis by auto
qed

theorem curve_construction_unchecked_witness:
  "levels_dict (activate_default (default_params\<lparr>gpu_min_fan_speed_target := 0\<rparr>))
     = Inl ValueError \<and>
   main True (default_params\<lparr>gpu_min_fan_speed_target := 0\<rparr>) [] True
     = StartupError ValueError \<and>
   (\<exists>levels. levels_dict (activate_default degenerate_params) = Inr levels \<and> levels \<noteq> [])"
  using curve_construction_unchecked [of "default_params\<lparr>gpu_min_fan_speed_target := 0\<rparr>" "[]" True]
    curve_construction_unchecked [of degenerate_params "[]" True]
  by (simp add: activate_default_def default_params_def degenerate_params_def)

text \<open>
  Claim C2 as stated fails: with the activation threshold 80 above the maximum 70 and the
  minimum speed 100, no error is raised, a table is built, and the program with an empty
  loop runs to its normal exit.
\<close>

theorem no_configuration_error_counterexample:
  "gpu_max_temp_threshold (activate_default degenerate_params)
     \<le> gpu_activate_fan_control_threshold (activate_default degenerate_params) \<and>
   100 \<le> gpu_min_fan_speed_target (activate_default degenerate_params) \<and>
   (\<exists>levels. levels_dict (activate_default degenerate_params) = Inr levels) \<and>
   main True degenerate_params [] True = Exit 0 [ToggleFanControl False]"
proof -
  from levels_dict_nonzero [of "activate_default degenerate_params"]
  obtain levels where "levels_dict (activate_default degenerate_params) = Inr levels"
    by (auto simp add: activate_default_def default_params_def degenerate_params_def)
  then show ?thesis
    by (simp add: main_def initial_state_def)
      (simp add: activate_default_def default_params_def degenerate_params_def)
qed

text \<open>
  Claim C5.  For \<open>0 < activate_threshold < max_temp_threshold\<close> and
  \<open>0 < min_fan_speed_target < 100\<close> the table has 512 entries, all finite, strictly
  increasing in temperature and in speed; the lookup at the activation threshold gives the
  minimum speed, and the lookup at the maximum temperature gives 100.
\<close>

theorem curve_strictly_increasing:
  assumes "0 < gpu_activate_fan_control_threshold p"
    and "gpu_activate_fan_control_threshold p < gpu_max_temp_threshold p"
    and "0 < gpu_min_fan_speed_target p"
    and "gpu_min_fan_speed_target p < 100"
  shows "\<exists>kvs. levels_dict p = Inr (map (\<lambda>(k, v). (Fin k, Fin v)) kvs) \<and>
           length kvs = 512 \<and>
           sorted_wrt (<) (map fst kvs) \<and>
           sorted_wrt (<) (map snd kvs) \<and>
           lookup_speed (map (\<lambda>(k, v). (Fin k, Fin v)) kvs)
               (gpu_activate_fan_control_threshold p) =
             Inr (Fin (of_int (gpu_min_fan_speed_target p))) \<and>
           lookup_speed (map (\<lambda>(k, v). (Fin k, Fin v)) kvs) (gpu_max_temp_threshold p) =
             Inr (Fin 100)"
proof -
  let ?a = "of_int (gpu_activate_fan_control_threshold p) :: real"
  let ?m = "of_int (gpu_max_temp_threshold p) :: real"
  let ?f = "of_int (gpu_min_fan_speed_target p) :: real"
  let ?kvs = "table ?a ?m ?f"
  let ?T = "map (\<lambda>(k, v). (Fin k, Fin v)) ?kvs"
  from assms have pos: "0 < ?a" "?a < ?m" "0 < ?m" "0 < ?f" "?f < 100" by simp_all
  have ld: "levels_dict p = Inr ?T" using assms by (intro levels_dict_table) simp_all
  have sk: "sorted_wrt (<) (map fst ?kvs)" using pos by (intro table_sorted_keys)
  have ss: "sorted_wrt (<) (map snd ?kvs)" using pos by (intro table_sorted_speeds)
  have d: "distinct (map fst ?kvs)" using pos by (intro table_distinct) simp_all
  have nn: "\<forall>k\<in>fst ` set ?kvs. 0 \<le> k" using pos by (intro table_nonneg)
  from lookup_sorted [OF sk nn table_nonempty, of "gpu_activate_fan_control_threshold p"]
  obtain v where v: "lookup_speed ?T (gpu_activate_fan_control_threshold p) = Inr (Fin v)"
    "smallest_breakpoint_speed ?T (gpu_activate_fan_control_threshold p) (Fin v)" by blast
  from spec_at_breakpoint [OF d table_first [OF pos(1,3,4)] v(2)] v(1)
  have la: "lookup_speed ?T (gpu_activate_fan_control_threshold p) = Inr (Fin ?f)" by simp
  from lookup_sorted [OF sk nn table_nonempty, of "gpu_max_temp_threshold p"]
  obtain w where w: "lookup_speed ?T (gpu_max_temp_threshold p) = Inr (Fin w)"
    "smallest_breakpoint_speed ?T (gpu_max_temp_threshold p) (Fin w)" by blast
  from spec_at_breakpoint [OF d table_last [OF pos(1,3,4)] w(2)] w(1)
  have lm: "lookup_speed ?T (gpu_max_temp_threshold p) = Inr (Fin 100)" by simp
  from ld sk ss la lm table_length [of ?a ?m ?f] show ?thesis by blast
qed

theorem curve_strictly_increasing_witness:
  "0 < gpu_activate_fan_control_threshold (activate_default default_params) \<and>
   gpu_activate_fan_control_threshold (activate_default default_params)
     < gpu_max_temp_threshold (activate_default default_params) \<and>
   0 < gpu_min_fan_speed_target (activate_default default_params) \<and>
   gpu_min_fan_speed_target (activate_default default_params) < 100 \<and>
   (\<exists>kvs. levels_dict (activate_default default_params) =
            Inr (map (\<lambda>(k, v). (Fin k, Fin v)) kvs) \<and>
      length kvs = 512 \<and>
      sorted_wrt (<) (map fst kvs) \<and>
      sorted_wrt (<) (map snd kvs) \<and>
      lookup_speed (map (\<lambda>(k, v). (Fin k, Fin v)) kvs) 55 = Inr (Fin 50) \<and>
      lookup_speed (map (\<lambda>(k, v). (Fin k, Fin v)) kvs) 80 = Inr (Fin 100))"
  using curve_strictly_increasing [of "activate_default default_params"]
  by (simp add: activate_default_def default_params_def)

section \<open>Telemetry aggregation: claims\<close>

text \<open>
  Two facts that hold on every batch: records on the ignore list change nothing as long as
  some other record is in the batch, and after a batch that was empty or held a record
  not on the ignore list, an empty batch gives the aggregate of that batch again.
\<close>

lemma ignored_records_without_effect:
  assumes "\<exists>raw\<in>set raws. \<not> is_ignored ignored_gpus raw"
  shows "drain ignored_gpus prev raws =
         drain ignored_gpus prev (filter (\<lambda>raw. \<not> is_ignored ignored_gpus raw) raws)"
proof -
  from assms have "filter (\<lambda>raw. \<not> is_ignored ignored_gpus raw) raws \<noteq> []"
    by (simp add: filter_empty_conv)
  moreover from assms have "raws \<noteq> []" by auto
  ultimately show ?thesis
    using drain_loop_filter [of ignored_gpus "(zero_aggregate, prev)" raws]
    by (simp add: drain_def)
qed

lemma sticky_after_processed_batch:
  assumes "drain ignored_gpus prev raws = Inr (highest, prev')"
    and "raws = [] \<or> (\<exists>raw\<in>set raws. \<not> is_ignored ignored_gpus raw)"
  shows "drain ignored_gpus prev' [] = Inr (highest, highest)"
proof (cases "raws = []")
  case True
  with assms(1) show ?thesis by (auto simp add: drain_def)
next
  case False
  with assms have "drain_loop ignored_gpus (zero_aggregate, prev) raws = Inr (highest, prev')"
    and "\<exists>raw\<in>set raws. \<not> is_ignored ignored_gpus raw"
    by (simp_all add: drain_def)
  from drain_loop_sync [OF this(2,1)] show ?thesis by (simp add: drain_def)
qed

text \<open>
  Claim C3, at the failing input.  GPU 1 is ignored.  A batch with a record of GPU 0 at 70
  degrees gives that aggregate; the next batch holds only a record of GPU 1 and gives the
  zero aggregate, leaving the stored values; the next batch is empty and gives the
  stored values, which differ from the aggregate of the pass before it.
\<close>

theorem sticky_lost_after_all_ignored_batch:
  "drain [''1''] zero_aggregate [Str ''0, Tesla P40, 70, 90''] =
     Inr (\<lparr>g_util = 90, g_temp = 70, g_idx = 0, g_name = ''Tesla P40''\<rparr>,
          \<lparr>g_util = 90, g_temp = 70, g_idx = 0, g_name = ''Tesla P40''\<rparr>) \<and>
   drain [''1''] \<lparr>g_util = 90, g_temp = 70, g_idx = 0, g_name = ''Tesla P40''\<rparr>
       [Str ''1, Tesla K80, 85, 100''] =
     Inr (zero_aggregate, \<lparr>g_util = 90, g_temp = 70, g_idx = 0, g_name = ''Tesla P40''\<rparr>) \<and>
   drain [''1''] \<lparr>g_util = 90, g_temp = 70, g_idx = 0, g_name = ''Tesla P40''\<rparr> [] =
     Inr (\<lparr>g_util = 90, g_temp = 70, g_idx = 0, g_name = ''Tesla P40''\<rparr>,
          \<lparr>g_util = 90, g_temp = 70, g_idx = 0, g_name = ''Tesla P40''\<rparr>) \<and>
   \<lparr>g_util = 90, g_temp = 70, g_idx = 0, g_name = ''Tesla P40''\<rparr> \<noteq> zero_aggregate"
  by (simp add: drain_def process_line_def clean_data_def bind_def item_def strip_def
      py_int_def py_whitespace_def is_digit_def digit_val_def zero_aggregate_def)

text \<open>
  Claim C4, at the failing input.  GPU 1 is ignored and the stored values are those of
  GPU 0 at 70 degrees.  A batch that holds only a record of GPU 1 gives the zero
  aggregate; the same batch without that record is empty and gives the stored values.
\<close>

theorem ignored_record_resets_aggregate:
  "is_ignored [''1''] (Str ''1, Tesla K80, 85, 100'') \<and>
   drain [''1''] \<lparr>g_util = 90, g_temp = 70, g_idx = 0, g_name = ''Tesla P40''\<rparr>
       [Str ''1, Tesla K80, 85, 100''] =
     Inr (zero_aggregate, \<lparr>g_util = 90, g_temp = 70, g_idx = 0, g_name = ''Tesla P40''\<rparr>) \<and>
   drain [''1''] \<lparr>g_util = 90, g_temp = 70, g_idx = 0, g_name = ''Tesla P40''\<rparr>
       (filter (\<lambda>raw. \<not> is_ignored [''1''] raw) [Str ''1, Tesla K80, 85, 100'']) =
     Inr (\<lparr>g_util = 90, g_temp = 70, g_idx = 0, g_name = ''Tesla P40''\<rparr>,
          \<lparr>g_util = 90, g_temp = 70, g_idx = 0, g_name = ''Tesla P40''\<rparr>)"
  by (simp add: drain_def process_line_def clean_data_def bind_def item_def strip_def
      is_ignored_def zero_aggregate_def)

text \<open>
  Claim C9 (as amended).  A queue item that is not on the ignore list and is malformed
  (fewer than three fields, a temperature field that is not an integer, or undecoded
  bytes) is not skipped: the drain of its pass raises, and the program ends with that
  uncaught exception inside the loop, without the final release call and without an
  exit status of its own.
\<close>

theorem malformed_record_ends_loop:
  assumes "inp \<in> set inps" and "raw \<in> set (batch inp)"
    and "\<not> is_ignored (ignored_gpus_of p) raw" and "malformed raw"
    and "levels_dict (activate_default p) = Inr levels"
  shows "(\<exists>e. drain (ignored_gpus_of p) prev (batch inp) = Inl e) \<and>
         (\<exists>e. main True p inps final_ok = LoopError e)"
proof -
  from assms(2) have "batch inp \<noteq> []" by auto
  with drain_loop_malformed [OF assms(2-4)]
  have d: "\<exists>e. drain (ignored_gpus_of p) prev (batch inp) = Inl e"
    by (auto simp add: drain_def)
  from run_loop_malformed [OF assms(1-4), of "activate_default p" levels initial_state]
  obtain e where
    "run_loop (activate_default p) (ignored_gpus_of p) levels initial_state inps = Inl e"
    by auto
  with assms(5) d show ?thesis by (simp add: main_def)
qed

theorem malformed_record_ends_loop_witness:
  "(let inp = \<lparr>batch = [Str ''0, Tesla P40, [N/A], 5''], now = 0,
               toggle_ok = True, speed_ok = True\<rparr>
    in inp \<in> set [inp] \<and>
       Str ''0, Tesla P40, [N/A], 5'' \<in> set (batch inp) \<and>
       \<not> is_ignored (ignored_gpus_of default_params) (Str ''0, Tesla P40, [N/A], 5'') \<and>
       malformed (Str ''0, Tesla P40, [N/A], 5'') \<and>
       (\<exists>levels. levels_dict (activate_default default_params) = Inr levels) \<and>
       (\<exists>e. drain (ignored_gpus_of default_params) zero_aggregate (batch inp) = Inl e) \<and>
       (\<exists>e. main True default_params [inp] True = LoopError e))"
proof -
  let ?raw = "Str ''0, Tesla P40, [N/A], 5''"
  let ?inp = "\<lparr>batch = [?raw], now = 0, toggle_ok = True, speed_ok = True\<rparr>"
  have i: "\<not> is_ignored (ignored_gpus_of default_params) ?raw"
    by (simp add: is_ignored_def ignored_gpus_of_def default_params_def)
  have m: "malformed ?raw"
    by (simp add: malformed_def temperature_of_def clean_data_def bind_def item_def
        strip_def py_int_def py_whitespace_def is_digit_def)
  from levels_dict_nonzero [of "activate_default default_params"]
  obtain levels where l: "levels_dict (activate_default default_params) = Inr levels"
    by (auto simp add: activate_default_def default_params_def)
  from malformed_record_ends_loop [of ?inp "[?inp]" ?raw default_params levels zero_aggregate True]
    i m l
  show ?thesis by (simp add: Let_def)
qed

text \<open>
  Claim C9 as stated fails: a record whose temperature field is \<^verbatim>\<open>[N/A]\<close> makes the drain
  raise ValueError, although the batch without it is drained without error; the empty
  line that the reader queues at end of input makes it raise IndexError; so do a
  utilization field that is not an integer, and a missing one, in a record whose
  temperature exceeds the highest so far.
\<close>

theorem malformed_record_not_skipped_counterexample:
  "malformed (Str ''0, Tesla P40, [N/A], 5'') \<and>
   drain [] zero_aggregate [Str ''0, Tesla P40, [N/A], 5'', Str ''0, Tesla P40, 62, 97''] =
     Inl ValueError \<and>
   drain [] zero_aggregate [Str ''0, Tesla P40, 62, 97''] =
     Inr (\<lparr>g_util = 97, g_temp = 62, g_idx = 0, g_name = ''Tesla P40''\<rparr>,
          \<lparr>g_util = 97, g_temp = 62, g_idx = 0, g_name = ''Tesla P40''\<rparr>) \<and>
   malformed (Str '''') \<and>
   drain [] zero_aggregate [Str ''''] = Inl IndexError \<and>
   drain [] zero_aggregate [Str ''0, Tesla P40, 62, [N/A]''] = Inl ValueError \<and>
   drain [] zero_aggregate [Str ''0, Tesla P40, 62''] = Inl IndexError"
  by (simp add: drain_def process_line_def clean_data_def bind_def item_def strip_def
      py_int_def py_whitespace_def is_digit_def digit_val_def zero_aggregate_def
      malformed_def temperature_of_def)

text \<open>
  Claim C10 (as amended).  For a non-empty batch in which every record is on the ignore
  list or has an integer temperature field that is at most 0, the aggregate of the pass is
  (temperature 0, utilization 0, index 0, empty name).  The stored previous values are
  left as they were when every record is on the ignore list, and are overwritten with
  that zero aggregate when some record is not.
\<close>

theorem all_ignored_or_cold_batch:
  assumes "raws \<noteq> []"
    and "\<forall>raw\<in>set raws. is_ignored ignored_gpus raw \<or> cold raw"
  shows "drain ignored_gpus prev raws =
           Inr (zero_aggregate,
                if (\<forall>raw\<in>set raws. is_ignored ignored_gpus raw) then prev
                else zero_aggregate)"
  using assms by (simp add: drain_def drain_loop_cold)

theorem all_ignored_or_cold_batch_witness:
  "[Str ''1, Tesla K80, 85, 100''] \<noteq> [] \<and>
   is_ignored [''1''] (Str ''1, Tesla K80, 85, 100'') \<and>
   drain [''1''] \<lparr>g_util = 90, g_temp = 70, g_idx = 0, g_name = ''Tesla P40''\<rparr>
       [Str ''1, Tesla K80, 85, 100''] =
     Inr (zero_aggregate, \<lparr>g_util = 90, g_temp = 70, g_idx = 0, g_name = ''Tesla P40''\<rparr>) \<and>
   [Str ''0, Tesla P40, -3, 0''] \<noteq> [] \<and>
   \<not> is_ignored [''1''] (Str ''0, Tesla P40, -3, 0'') \<and>
   cold (Str ''0, Tesla P40, -3, 0'') \<and>
   drain [''1''] \<lparr>g_util = 90, g_temp = 70, g_idx = 0, g_name = ''Tesla P40''\<rparr>
       [Str ''0, Tesla P40, -3, 0''] = Inr (zero_aggregate, zero_aggregate)"
proof -
  have i: "is_ignored [''1''] (Str ''1, Tesla K80, 85, 100'')"
    by (simp add: is_ignored_def clean_data_def strip_def)
  have n: "\<not> is_ignored [''1''] (Str ''0, Tesla P40, -3, 0'')"
    by (simp add: is_ignored_def clean_data_def strip_def)
  have c: "cold (Str ''0, Tesla P40, -3, 0'')"
    by (simp add: cold_def temperature_of_def clean_data_def bind_def item_def strip_def
        py_int_def py_whitespace_def is_digit_def digit_val_def)
  from all_ignored_or_cold_batch [of "[Str ''1, Tesla K80, 85, 100'']" "[''1'']"
      "\<lparr>g_util = 90, g_temp = 70, g_idx = 0, g_name = ''Tesla P40''\<rparr>"]
    all_ignored_or_cold_batch [of "[Str ''0, Tesla P40, -3, 0'']" "[''1'']"
      "\<lparr>g_util = 90, g_temp = 70, g_idx = 0, g_name = ''Tesla P40''\<rparr>"]
    i n c
  show ?thesis by simp
qed

text \<open>
  Claim C10 as stated fails where the batch holds a record that is not ignored and whose
  temperature does not exceed 0: the stored previous values do not stay, they become the
  zero aggregate.
\<close>

theorem cold_batch_overwrites_previous_counterexample:
  "\<not> is_ignored [] (Str ''0, Tesla P40, 0, 0'') \<and> cold (Str ''0, Tesla P40, 0, 0'') \<and>
   drain [] \<lparr>g_util = 90, g_temp = 70, g_idx = 0, g_name = ''Tesla P40''\<rparr>
       [Str ''0, Tesla P40, 0, 0''] = Inr (zero_aggregate, zero_aggregate) \<and>
   drain [] \<lparr>g_util = 90, g_temp = 70, g_idx = 0, g_name = ''Tesla P40''\<rparr>
       [Str ''0, Tesla P40, 0, 0''] \<noteq>
     Inr (zero_aggregate, \<lparr>g_util = 90, g_temp = 70, g_idx = 0, g_name = ''Tesla P40''\<rparr>)"
  by (simp add: drain_def process_line_def clean_data_def bind_def item_def strip_def
      py_int_def py_whitespace_def is_digit_def digit_val_def zero_aggregate_def
      is_ignored_def cold_def temperature_of_def)

section \<open>The state machine\<close>

text \<open>
  Claim C6.  In every state that the loop reaches from its initial state, once
  \<^verbatim>\<open>manual_met_idle_temp_dt\<close> (the spec's idle_reached_at) is set, manual control is
  active, and a pass of the loop keeps the time stamp as it is, whatever the temperature
  of the pass, unless the handoff fires; the handoff test reads only the stored time stamp
  and the utilization, so a stale time stamp satisfies it.  The time stamp is cleared only
  together with \<^verbatim>\<open>manual_activated_dt\<close>, by the handoff.  (The only other assignment of
  None to it is in the activation branch, which needs \<^verbatim>\<open>manual_activated_dt\<close> to be
  None, where the time stamp is None already.)
\<close>

theorem idle_reached_at_not_rearmed:
  assumes "run_loop p ignored_gpus levels initial_state inps = Inr s"
    and "manual_met_idle_temp_dt s = Some met_idle"
    and "drain ignored_gpus (previous s) (batch inp) = Inr (highest, prev')"
    and "tick p ignored_gpus levels s inp = Inr s'"
  shows "manual_activated_dt s \<noteq> None \<and>
         (if handoff_due p inp highest met_idle
          then manual_met_idle_temp_dt s' = None \<and> manual_activated_dt s' = None \<and>
               sink_calls s' = sink_calls s @ [ToggleFanControl False]
          else manual_met_idle_temp_dt s' = Some met_idle \<and>
               manual_activated_dt s' = manual_activated_dt s)"
proof -
  from run_loop_idle_implies_manual [OF assms(1)] assms(2)
  have m: "manual_activated_dt s \<noteq> None" by (simp add: initial_state_def)
  with assms(2-4) show ?thesis
    by (auto simp add: tick_def bind_def transition_def set_speed_def
        split: if_splits sum.splits)
qed

theorem idle_reached_at_not_rearmed_witness:
  "(let p = activate_default default_params;
        levels = [(Fin 55, Fin 50), (Fin 80, Fin 100)];
        warm = \<lparr>batch = [Str ''0, Tesla P40, 62, 97''], now = 1000000,
                toggle_ok = True, speed_ok = True\<rparr>;
        idle = \<lparr>batch = [Str ''0, Tesla P40, 44, 0''], now = 2000000,
                toggle_ok = True, speed_ok = True\<rparr>;
        rise = \<lparr>batch = [Str ''0, Tesla P40, 70, 90''], now = 5000000,
                toggle_ok = True, speed_ok = True\<rparr>;
        s = \<lparr>previous = \<lparr>g_util = 0, g_temp = 44, g_idx = 0, g_name = ''Tesla P40''\<rparr>,
             manual_activated_dt = Some 1000000, manual_met_idle_temp_dt = Some 2000000,
             stop_nvidia_smi = False,
             sink_calls = [ToggleFanControl True, SetStaticFanSpeed 100, SetStaticFanSpeed 50]\<rparr>;
        hot = \<lparr>g_util = 90, g_temp = 70, g_idx = 0, g_name = ''Tesla P40''\<rparr>;
        s' = s\<lparr>previous := hot, sink_calls := sink_calls s @ [SetStaticFanSpeed 100]\<rparr>
    in run_loop p [] levels initial_state [warm, idle] = Inr s \<and>
       manual_met_idle_temp_dt s = Some 2000000 \<and>
       drain [] (previous s) (batch rise) = Inr (hot, hot) \<and>
       tick p [] levels s rise = Inr s' \<and>
       gpu_idle_temp_target p < g_temp hot \<and>
       \<not> handoff_due p rise hot 2000000 \<and>
       manual_activated_dt s \<noteq> None \<and>
       manual_met_idle_temp_dt s' = Some 2000000 \<and>
       manual_activated_dt s' = manual_activated_dt s)"
proof -
  let ?p = "activate_default default_params"
  let ?levels = "[(Fin 55, Fin 50), (Fin 80, Fin 100)]"
  let ?warm = "\<lparr>batch = [Str ''0, Tesla P40, 62, 97''], now = 1000000,
                toggle_ok = True, speed_ok = True\<rparr>"
  let ?idle = "\<lparr>batch = [Str ''0, Tesla P40, 44, 0''], now = 2000000,
                toggle_ok = True, speed_ok = True\<rparr>"
  let ?rise = "\<lparr>batch = [Str ''0, Tesla P40, 70, 90''], now = 5000000,
                toggle_ok = True, speed_ok = True\<rparr>"
  let ?s1 = "\<lparr>previous = \<lparr>g_util = 97, g_temp = 62, g_idx = 0, g_name = ''Tesla P40''\<rparr>,
             manual_activated_dt = Some 1000000, manual_met_idle_temp_dt = None,
             stop_nvidia_smi = False,
             sink_calls = [ToggleFanControl True, SetStaticFanSpeed 100]\<rparr>"
  let ?s = "\<lparr>previous = \<lparr>g_util = 0, g_temp = 44, g_idx = 0, g_name = ''Tesla P40''\<rparr>,
             manual_activated_dt = Some 1000000, manual_met_idle_temp_dt = Some 2000000,
             stop_nvidia_smi = False,
             sink_calls = [ToggleFanControl True, SetStaticFanSpeed 100, SetStaticFanSpeed 50]\<rparr>"
  let ?hot = "\<lparr>g_util = 90, g_temp = 70, g_idx = 0, g_name = ''Tesla P40''\<rparr>"
  let ?s' = "?s\<lparr>previous := ?hot, sink_calls := sink_calls ?s @ [SetStaticFanSpeed 100]\<rparr>"
  have d1: "drain [] (previous initial_state) (batch ?warm) =
      Inr (\<lparr>g_util = 97, g_temp = 62, g_idx = 0, g_name = ''Tesla P40''\<rparr>,
           \<lparr>g_util = 97, g_temp = 62, g_idx = 0, g_name = ''Tesla P40''\<rparr>)"
    by (simp add: drain_def process_line_def clean_data_def bind_def item_def strip_def
        py_int_def py_whitespace_def is_digit_def digit_val_def zero_aggregate_def
        initial_state_def)
  have t1: "tick ?p [] ?levels initial_state ?warm = Inr ?s1"
    unfolding tick_def d1
    by (simp add: bind_def transition_def set_speed_def handoff_due_def default_params_def
        activate_default_def ipmi_set_static_fan_speed_def lookup_speed_def trunc_def
        initial_state_def)
  have d2: "drain [] (previous ?s1) (batch ?idle) =
      Inr (\<lparr>g_util = 0, g_temp = 44, g_idx = 0, g_name = ''Tesla P40''\<rparr>,
           \<lparr>g_util = 0, g_temp = 44, g_idx = 0, g_name = ''Tesla P40''\<rparr>)"
    by (simp add: drain_def process_line_def clean_data_def bind_def item_def strip_def
        py_int_def py_whitespace_def is_digit_def digit_val_def zero_aggregate_def)
  have t2: "tick ?p [] ?levels ?s1 ?idle = Inr ?s"
    unfolding tick_def d2
    by (simp add: bind_def transition_def set_speed_def handoff_due_def default_params_def
        activate_default_def ipmi_set_static_fan_speed_def lookup_speed_def trunc_def)
  have r: "run_loop ?p [] ?levels initial_state [?warm, ?idle] = Inr ?s"
    by (simp add: t1 t2 bind_def)
  have d: "drain [] (previous ?s) (batch ?rise) = Inr (?hot, ?hot)"
    by (simp add: drain_def process_line_def clean_data_def bind_def item_def strip_def
        py_int_def py_whitespace_def is_digit_def digit_val_def zero_aggregate_def)
  have t: "tick ?p [] ?levels ?s ?rise = Inr ?s'"
    unfolding tick_def d
    by (simp add: bind_def transition_def set_speed_def handoff_due_def default_params_def
        activate_default_def ipmi_set_static_fan_speed_def lookup_speed_def trunc_def)
  have i: "manual_met_idle_temp_dt ?s = Some 2000000" by simp
  from idle_reached_at_not_rearmed [OF r i d t] r d t show ?thesis
    by (simp add: handoff_due_def default_params_def activate_default_def)
qed

text \<open>
  Claim C7.  When the handoff fires, the pass appends the release call, clears both
  \<^verbatim>\<open>manual_activated_dt\<close> and \<^verbatim>\<open>manual_met_idle_temp_dt\<close> whether or not ipmitool
  succeeded, and sets the stop event exactly when it failed (or was set before).  No speed
  is set in that pass.
\<close>

theorem handoff_clears_state_despite_failure:
  assumes "drain ignored_gpus (previous s) (batch inp) = Inr (highest, prev')"
    and "manual_activated_dt s \<noteq> None"
    and "manual_met_idle_temp_dt s = Some met_idle"
    and "handoff_due p inp highest met_idle"
  shows "tick p ignored_gpus levels s inp =
           Inr (s\<lparr>previous := prev',
                  manual_activated_dt := None,
                  manual_met_idle_temp_dt := None,
                  sink_calls := sink_calls s @ [ToggleFanControl False],
                  stop_nvidia_smi := (stop_nvidia_smi s \<or> \<not> toggle_ok inp)\<rparr>)"
  using assms
  by (cases "manual_activated_dt s")
    (simp_all add: tick_def bind_def transition_def set_speed_def)

theorem handoff_clears_state_despite_failure_witness:
  "(let s = \<lparr>previous = \<lparr>g_util = 0, g_temp = 44, g_idx = 0, g_name = ''Tesla P40''\<rparr>,
             manual_activated_dt = Some 0, manual_met_idle_temp_dt = Some 1000000,
             stop_nvidia_smi = False, sink_calls = [ToggleFanControl True]\<rparr>;
        inp = \<lparr>batch = [], now = 12000000, toggle_ok = False, speed_ok = True\<rparr>
    in drain [] (previous s) (batch inp) = Inr (previous s, previous s) \<and>
       manual_activated_dt s \<noteq> None \<and>
       manual_met_idle_temp_dt s = Some 1000000 \<and>
       handoff_due (activate_default default_params) inp (previous s) 1000000 \<and>
       tick (activate_default default_params) [] [] s inp =
         Inr \<lparr>previous = \<lparr>g_util = 0, g_temp = 44, g_idx = 0, g_name = ''Tesla P40''\<rparr>,
              manual_activated_dt = None, manual_met_idle_temp_dt = None,
              stop_nvidia_smi = True,
              sink_calls = [ToggleFanControl True, ToggleFanControl False]\<rparr>)"
  using handoff_clears_state_despite_failure
    [of "[]"
      "\<lparr>previous = \<lparr>g_util = 0, g_temp = 44, g_idx = 0, g_name = ''Tesla P40''\<rparr>,
        manual_activated_dt = Some 0, manual_met_idle_temp_dt = Some 1000000,
        stop_nvidia_smi = False, sink_calls = [ToggleFanControl True]\<rparr>"
      "\<lparr>batch = [], now = 12000000, toggle_ok = False, speed_ok = True\<rparr>"
      "\<lparr>g_util = 0, g_temp = 44, g_idx = 0, g_name = ''Tesla P40''\<rparr>"
      "\<lparr>g_util = 0, g_temp = 44, g_idx = 0, g_name = ''Tesla P40''\<rparr>"
      1000000 "activate_default default_params" "[]"]
  by (simp add: drain_def handoff_due_def default_params_def activate_default_def)

text \<open>
  Claim C8.  Without the external tools the program exits with status 1 and calls
  ipmitool never.  Otherwise, when the loop ends (the completion flag was seen) after any
  passes that raised nothing, the program makes exactly one more ipmitool call, the
  release of manual control, whatever state the loop ended in, and exits with status 0 if
  that call succeeded and 1 if it failed.
\<close>

theorem terminal_release_and_exit_status:
  "main False p inps final_ok = Exit 1 [] \<and>
   (\<forall>levels s. levels_dict (activate_default p) = Inr levels \<longrightarrow>
      run_loop (activate_default p) (ignored_gpus_of p) levels initial_state inps = Inr s \<longrightarrow>
      main True p inps final_ok =
        Exit (if final_ok then 0 else 1) (sink_calls s @ [ToggleFanControl False]))"
  by (simp add: main_def)

theorem terminal_release_and_exit_status_witness:
  "(let inp = \<lparr>batch = [Str ''0, Tesla P40, 62, 97''], now = 0,
               toggle_ok = False, speed_ok = True\<rparr>
    in \<exists>levels s b.
         levels_dict (activate_default default_params) = Inr levels \<and>
         run_loop (activate_default default_params) (ignored_gpus_of default_params)
           levels initial_state [inp] = Inr s \<and>
         manual_activated_dt s = Some 0 \<and> stop_nvidia_smi s \<and>
         sink_calls s = [ToggleFanControl True, SetStaticFanSpeed b] \<and>
         main True default_params [inp] False =
           Exit 1 [ToggleFanControl True, SetStaticFanSpeed b, ToggleFanControl False] \<and>
         main True default_params [inp] True =
           Exit 0 [ToggleFanControl True, SetStaticFanSpeed b, ToggleFanControl False] \<and>
         main False default_params [inp] True = Exit 1 [])"
proof -
  let ?p = "activate_default default_params"
  let ?inp = "\<lparr>batch = [Str ''0, Tesla P40, 62, 97''], now = 0,
               toggle_ok = False, speed_ok = True\<rparr>"
  let ?hot = "\<lparr>g_util = 97, g_temp = 62, g_idx = 0, g_name = ''Tesla P40''\<rparr>"
  let ?kvs = "table 55 80 50"
  let ?T = "map (\<lambda>(k, v). (Fin k, Fin v)) ?kvs"
  have ld: "levels_dict ?p = Inr ?T"
    using levels_dict_table [of ?p] by (simp add: activate_default_def default_params_def)
  have sk: "sorted_wrt (<) (map fst ?kvs)" by (intro table_sorted_keys) simp_all
  have nn: "\<forall>k\<in>fst ` set ?kvs. 0 \<le> k" by (intro table_nonneg) simp_all
  from lookup_sorted [OF sk nn table_nonempty, of 62]
  obtain v where "lookup_speed ?T 62 = Inr (Fin v)" by blast
  then have sp: "ipmi_set_static_fan_speed ?T 62 = Inr (SetStaticFanSpeed (trunc v))"
    by (simp add: ipmi_set_static_fan_speed_def bind_def)
  have d: "drain (ignored_gpus_of default_params) (previous initial_state) (batch ?inp)
      = Inr (?hot, ?hot)"
    by (simp add: drain_def process_line_def clean_data_def bind_def item_def strip_def
        py_int_def py_whitespace_def is_digit_def digit_val_def zero_aggregate_def
        ignored_gpus_of_def default_params_def initial_state_def)
  let ?s = "\<lparr>previous = ?hot, manual_activated_dt = Some 0,
              manual_met_idle_temp_dt = None, stop_nvidia_smi = True,
              sink_calls = [ToggleFanControl True, SetStaticFanSpeed (trunc v)]\<rparr>"
  have t: "tick ?p (ignored_gpus_of default_params) ?T initial_state ?inp = Inr ?s"
    unfolding tick_def d
    by (simp add: bind_def transition_def set_speed_def sp)
      (simp add: initial_state_def activate_default_def default_params_def)
  then have r: "run_loop ?p (ignored_gpus_of default_params) ?T initial_state [?inp] = Inr ?s"
    by (simp add: bind_def)
  from terminal_release_and_exit_status [of default_params "[?inp]" False]
    terminal_release_and_exit_status [of default_params "[?inp]" True] ld r
  have "main True default_params [?inp] False =
           Exit 1 [ToggleFanControl True, SetStaticFanSpeed (trunc v), ToggleFanControl False]"
    and "main True default_params [?inp] True =
           Exit 0 [ToggleFanControl True, SetStaticFanSpeed (trunc v), ToggleFanControl False]"
    and "main False default_params [?inp] True = Exit 1 []"
    by simp_all
  with ld r show ?thesis unfolding Let_def
    by (intro exI [of _ ?T] exI [of _ ?s] exI [of _ "trunc v"]) simp
qed

end
